theory Spec2Isabelle
  imports Main "HOL-Library.Word" "HOL-Library.Multiset"
begin

unbundle bit_operations_syntax

section \<open>JavaScript values\<close>

text \<open>
  The archive code of the library is \<^verbatim>\<open>File.zip\<close> and \<^verbatim>\<open>File.unzip\<close> of
  \<^verbatim>\<open>src/butility.js\<close>. A \<^verbatim>\<open>Uint8Array\<close> is a list of bytes; a JavaScript string is a
  list of UTF-16 code units, and its \<^verbatim>\<open>length\<close> is the number of code units.
\<close>

type_synonym byte = "8 word"
type_synonym int32 = "32 word"
type_synonym js_string = "16 word list"

text \<open>An Isabelle string literal (ASCII) as a JavaScript string.\<close>

definition js :: "string \<Rightarrow> js_string" where
  "js s = map (\<lambda>c. of_nat (of_char c)) s"

text \<open>
  What the code can throw or reject with. \<^verbatim>\<open>new Error(msg)\<close> carries its message;
  \<open>error_name\<close> is the \<^verbatim>\<open>name\<close> property of the error object.
\<close>

datatype error = ReferenceError | RangeError | Error string

fun error_name :: "error \<Rightarrow> string" where
  "error_name ReferenceError = ''ReferenceError''"
| "error_name RangeError = ''RangeError''"
| "error_name (Error msg) = ''Error''"

fun error_message :: "error \<Rightarrow> string option" where
  "error_message (Error msg) = Some msg"
| "error_message _ = None"

text \<open>
  The values that reach the bitwise operators of \<^verbatim>\<open>File.zip\<close>: \<^verbatim>\<open>undefined\<close> and
  integer-valued Numbers. \<^verbatim>\<open>ToInt32\<close> sends \<^verbatim>\<open>undefined\<close> to NaN and then to 0, and wraps a
  Number modulo \<open>2 ^ 32\<close>.
\<close>

datatype js_value = Undefined | Number int

fun ToInt32 :: "js_value \<Rightarrow> int32" where
  "ToInt32 Undefined = 0"
| "ToInt32 (Number n) = word_of_int n"

text \<open>\<^verbatim>\<open>a & b\<close> and \<^verbatim>\<open>a >> n\<close> (the shift keeps the sign) on values already converted.\<close>

definition js_and :: "int32 \<Rightarrow> int32 \<Rightarrow> int32" where
  "js_and a b = a AND b"

definition js_shr :: "int32 \<Rightarrow> nat \<Rightarrow> int32" where
  "js_shr a n = signed_drop_bit n a"

text \<open>
  An element of a \<^verbatim>\<open>Uint8Array\<close> literal is stored modulo 256: \<open>uint8\<close> for a Number
  given as an integer, \<open>uint8_of_int32\<close> for the signed result of a bitwise operator.
\<close>

definition uint8 :: "int \<Rightarrow> byte" where
  "uint8 n = word_of_int n"

definition uint8_of_int32 :: "int32 \<Rightarrow> byte" where
  "uint8_of_int32 w = uint8 (sint w)"

subsection \<open>TextEncoder\<close>

text \<open>
  \<^verbatim>\<open>new TextEncoder().encode(s)\<close> is a browser function: it reads \<open>s\<close> as a sequence of
  Unicode scalar values (a surrogate pair is one scalar value, a surrogate that is not part
  of a pair is replaced by U+FFFD) and writes each one in UTF-8.
\<close>

definition is_high_surrogate :: "16 word \<Rightarrow> bool" where
  "is_high_surrogate u = (0xD800 \<le> unat u \<and> unat u \<le> 0xDBFF)"

definition is_low_surrogate :: "16 word \<Rightarrow> bool" where
  "is_low_surrogate u = (0xDC00 \<le> unat u \<and> unat u \<le> 0xDFFF)"

definition utf8_of_scalar :: "nat \<Rightarrow> byte list" where
  "utf8_of_scalar c =
     (if c < 0x80 then [of_nat c]
      else if c < 0x800 then [of_nat (0xC0 + c div 64), of_nat (0x80 + c mod 64)]
      else if c < 0x10000 then
        [of_nat (0xE0 + c div 4096), of_nat (0x80 + c div 64 mod 64), of_nat (0x80 + c mod 64)]
      else
        [of_nat (0xF0 + c div 262144), of_nat (0x80 + c div 4096 mod 64),
         of_nat (0x80 + c div 64 mod 64), of_nat (0x80 + c mod 64)])"

definition scalar_of_unit :: "16 word \<Rightarrow> nat" where
  "scalar_of_unit u = (if is_high_surrogate u \<or> is_low_surrogate u then 0xFFFD else unat u)"

definition scalar_of_pair :: "16 word \<Rightarrow> 16 word \<Rightarrow> nat" where
  "scalar_of_pair hi lo = 0x10000 + (unat hi - 0xD800) * 1024 + (unat lo - 0xDC00)"

fun TextEncoder_encode :: "js_string \<Rightarrow> byte list" where
  "TextEncoder_encode [] = []"
| "TextEncoder_encode [u] = utf8_of_scalar (scalar_of_unit u)"
| "TextEncoder_encode (u # v # us) =
     (if is_high_surrogate u \<and> is_low_surrogate v
      then utf8_of_scalar (scalar_of_pair u v) @ TextEncoder_encode us
      else utf8_of_scalar (scalar_of_unit u) @ TextEncoder_encode (v # us))"

text \<open>A string is ASCII when every code unit is below 0x80.\<close>

definition is_ascii :: "js_string \<Rightarrow> bool" where
  "is_ascii s = list_all (\<lambda>u. unat u < 0x80) s"

subsection \<open>Typed arrays\<close>

text \<open>
  \<^verbatim>\<open>new Uint8Array(n)\<close> is \<open>n\<close> zero bytes. \<^verbatim>\<open>target.set(source, offset)\<close> copies
  \<open>source\<close> into \<open>target\<close> from index \<open>offset\<close> and throws a RangeError when the source
  does not fit. The memory limit of the engine on the length of an array is not modelled.
\<close>

definition new_Uint8Array :: "nat \<Rightarrow> byte list" where
  "new_Uint8Array n = replicate n 0"

definition typed_set :: "byte list \<Rightarrow> byte list \<Rightarrow> nat \<Rightarrow> error + byte list" where
  "typed_set target source off =
     (if length source + off > length target then Inl RangeError
      else Inr (take off target @ source @ drop (off + length source) target))"

text \<open>
  \<^verbatim>\<open>xs.forEach(x => out.push(f(x)))\<close> where \<open>f\<close> may throw: the first exception ends the
  loop and leaves the function.
\<close>

fun forEach_push :: "('a \<Rightarrow> error + 'b) \<Rightarrow> 'a list \<Rightarrow> error + 'b list" where
  "forEach_push f [] = Inr []"
| "forEach_push f (x # xs) =
     (case f x of
        Inl e \<Rightarrow> Inl e
      | Inr y \<Rightarrow> (case forEach_push f xs of Inl e \<Rightarrow> Inl e | Inr ys \<Rightarrow> Inr (y # ys)))"

section \<open>File.zip\<close>

text \<open>The argument: an array of objects with a \<^verbatim>\<open>name\<close> and a \<^verbatim>\<open>content\<close> string.\<close>

record text_file =
  name :: js_string
  content :: js_string

text \<open>The elements of \<^verbatim>\<open>zipData\<close> (first loop).\<close>

record zip_datum =
  zd_name :: js_string
  zd_content :: "byte list"
  zd_contentLength :: nat

definition zip_datum_of :: "text_file \<Rightarrow> zip_datum" where
  "zip_datum_of file =
     (let content = TextEncoder_encode (content file)
      in \<lparr>zd_name = name file, zd_content = content, zd_contentLength = length content\<rparr>)"

definition zipData :: "text_file list \<Rightarrow> zip_datum list" where
  "zipData files = map zip_datum_of files"

text \<open>
  The elements of \<^verbatim>\<open>centralDirectory\<close> (second loop): objects with the properties
  \<^verbatim>\<open>name\<close>, \<^verbatim>\<open>offset\<close> and \<^verbatim>\<open>contentLength\<close>; \<^verbatim>\<open>currentOffset\<close> grows by the content
  length only.
\<close>

record cd_entry =
  cd_name :: js_string
  cd_offset :: nat
  cd_contentLength :: nat

fun centralDirectory :: "nat \<Rightarrow> zip_datum list \<Rightarrow> cd_entry list" where
  "centralDirectory currentOffset [] = []"
| "centralDirectory currentOffset (file # rest) =
     \<lparr>cd_name = zd_name file, cd_offset = currentOffset,
      cd_contentLength = zd_contentLength file\<rparr>
     # centralDirectory (currentOffset + zd_contentLength file) rest"

text \<open>
  The fourth loop reads \<^verbatim>\<open>file.currentOffset\<close> from such an object. The object has no
  property of that name (the offset is stored as \<^verbatim>\<open>offset\<close>), so the read gives
  \<^verbatim>\<open>undefined\<close>.
\<close>

definition file_currentOffset :: "cd_entry \<Rightarrow> js_value" where
  "file_currentOffset file = Undefined"

text \<open>Third loop: the local header (32 bytes as written) and the entry built from it.\<close>

definition local_header :: "zip_datum \<Rightarrow> byte list" where
  "local_header file =
     [80, 75, 3, 4,
      10, 0,
      0, 0,
      0, 0,
      0, 0, 0, 0,
      0, 0, 0, 0,
      0, 0, 0, 0,
      0, 0, 0, 0,
      0, 0, 0, 0,
      uint8 (int (length (zd_name file))), 0]"

definition fileEntry :: "zip_datum \<Rightarrow> error + byte list" where
  "fileEntry file =
     (let header = local_header file;
          n = length (zd_name file)
      in case typed_set (new_Uint8Array (length header + n)) header 0 of
           Inl e \<Rightarrow> Inl e
         | Inr h \<Rightarrow>
        (case typed_set h (TextEncoder_encode (zd_name file)) (length header) of
           Inl e \<Rightarrow> Inl e
         | Inr headerArray \<Rightarrow>
        (let content = zd_content file
         in case typed_set (new_Uint8Array (length headerArray + length content)) headerArray 0 of
              Inl e \<Rightarrow> Inl e
            | Inr entry \<Rightarrow> typed_set entry content (length headerArray))))"

definition zipArray :: "zip_datum list \<Rightarrow> error + byte list list" where
  "zipArray zd = forEach_push fileEntry zd"

text \<open>Fourth loop: the central directory header (48 bytes as written) and its record.\<close>

definition central_header :: "cd_entry \<Rightarrow> byte list" where
  "central_header file =
     [80, 75, 1, 2,
      10, 0,
      10, 0,
      0, 0,
      0, 0,
      0, 0, 0, 0,
      0, 0, 0, 0,
      0, 0, 0, 0,
      0, 0, 0, 0,
      0, 0, 0, 0,
      uint8 (int (length (cd_name file))), 0,
      0, 0,
      0, 0,
      0, 0,
      0, 0,
      0, 0, 0, 0,
      uint8_of_int32 (js_and (ToInt32 (file_currentOffset file)) 255),
      uint8_of_int32 (js_and (js_shr (ToInt32 (file_currentOffset file)) 8) 255)]"

definition central_record :: "cd_entry \<Rightarrow> error + byte list" where
  "central_record file =
     (let header = central_header file;
          n = length (cd_name file)
      in case typed_set (new_Uint8Array (length header + n)) header 0 of
           Inl e \<Rightarrow> Inl e
         | Inr h \<Rightarrow> typed_set h (TextEncoder_encode (cd_name file)) (length header))"

definition centralDirectoryArray :: "cd_entry list \<Rightarrow> error + byte list list" where
  "centralDirectoryArray cd = forEach_push central_record cd"

text \<open>
  \<^verbatim>\<open>array.reduce((acc, entry) => acc + entry.length, 0)\<close>.
\<close>

definition total_length :: "byte list list \<Rightarrow> nat" where
  "total_length arrays = foldl (\<lambda>acc entry. acc + length entry) 0 arrays"

text \<open>
  The end-of-central-directory record. Its array literal is evaluated from left to right and
  reads the identifier \<^verbatim>\<open>offset\<close>, which neither \<^verbatim>\<open>File.zip\<close> nor the module declares: the
  read is resolved in the global environment of the page. \<open>global_offset\<close> is that
  binding: \<open>None\<close> when the page has none (the read throws a ReferenceError), \<open>Some v\<close>
  when a script of the page has declared a global \<^verbatim>\<open>offset\<close> with value \<open>v\<close>.
  \<open>eocd_record\<close> is the literal, given the entry count, the size of the central directory
  and the value read from \<^verbatim>\<open>offset\<close>, each after \<^verbatim>\<open>ToInt32\<close>.
\<close>

definition eocd_record :: "int32 \<Rightarrow> int32 \<Rightarrow> int32 \<Rightarrow> byte list" where
  "eocd_record n cd_size offset =
     [80, 75, 5, 6,
      0, 0, 0, 0,
      0, 0, 0, 0,
      uint8_of_int32 (js_and n 255),
      uint8_of_int32 (js_and (js_shr n 8) 255),
      uint8_of_int32 (js_and n 255),
      uint8_of_int32 (js_and (js_shr n 8) 255),
      uint8_of_int32 (js_and cd_size (ToInt32 (Number 4294967295))),
      uint8_of_int32 (js_and (js_and (js_shr cd_size 8) (ToInt32 (Number 4294967295))) 255),
      uint8_of_int32 (js_and (js_and offset (ToInt32 (Number 4294967295))) 255),
      uint8_of_int32 (js_and (js_shr (js_and offset (ToInt32 (Number 4294967295))) 8) 255),
      0, 0]"

definition endOfCentralDirectory :: "js_value option \<Rightarrow> byte list list \<Rightarrow> error + byte list" where
  "endOfCentralDirectory global_offset cda =
     (let n = ToInt32 (Number (int (length cda)));
          cd_size = ToInt32 (Number (int (total_length cda)))
      in case global_offset of
           None \<Rightarrow> Inl ReferenceError
         | Some v \<Rightarrow> Inr (eocd_record n cd_size (ToInt32 v)))"

text \<open>
  The output buffer: every entry, then every central directory record, then the final
  record, each copied with \<^verbatim>\<open>zipFile.set(entry, currentOffset)\<close>.
\<close>

fun set_each :: "byte list list \<Rightarrow> byte list \<times> nat \<Rightarrow> error + byte list \<times> nat" where
  "set_each [] (zipFile, currentOffset) = Inr (zipFile, currentOffset)"
| "set_each (entry # rest) (zipFile, currentOffset) =
     (case typed_set zipFile entry currentOffset of
        Inl e \<Rightarrow> Inl e
      | Inr zipFile' \<Rightarrow> set_each rest (zipFile', currentOffset + length entry))"

definition zipFile :: "byte list list \<Rightarrow> byte list list \<Rightarrow> byte list \<Rightarrow> error + byte list" where
  "zipFile za cda eocd =
     (case set_each za (new_Uint8Array (total_length za + total_length cda + length eocd), 0) of
        Inl e \<Rightarrow> Inl e
      | Inr (zf, off) \<Rightarrow>
     (case set_each cda (zf, off) of
        Inl e \<Rightarrow> Inl e
      | Inr (zf', off') \<Rightarrow> typed_set zf' eocd off'))"

text \<open>
  The browser state the last lines of \<^verbatim>\<open>File.zip\<close> act on: the object URLs registered with
  \<^verbatim>\<open>URL.createObjectURL\<close>, and the downloads started by clicking a link that has a
  \<^verbatim>\<open>download\<close> attribute (file name and Blob).
\<close>

record blob =
  blob_bytes :: "byte list"
  blob_type :: string

record browser =
  object_urls :: "blob list"
  downloads :: "(js_string \<times> blob) list"

definition download_link :: "browser \<Rightarrow> blob \<Rightarrow> js_string \<Rightarrow> browser" where
  "download_link b zipBlob zipFileName =
     b\<lparr>object_urls := object_urls b @ [zipBlob],
       downloads := downloads b @ [(zipFileName, zipBlob)]\<rparr>"

text \<open>
  \<^verbatim>\<open>File.zip(files, zipFileName)\<close>, in a page whose global binding of \<^verbatim>\<open>offset\<close> is
  \<open>global_offset\<close> and whose browser state is \<open>b\<close>. The result is what the call returns
  (\<open>Inr\<close>) or throws (\<open>Inl\<close>), together with the browser state after the call. Every
  statement that acts on the browser comes after the last expression that can throw, so
  a call that throws hands the state back as it was.
\<close>

definition zip ::
  "js_value option \<Rightarrow> browser \<Rightarrow> text_file list \<Rightarrow> js_string \<Rightarrow> (error + blob) \<times> browser" where
  "zip global_offset b files zipFileName =
     (let zd = zipData files;
          cd = centralDirectory 0 zd
      in case zipArray zd of
           Inl e \<Rightarrow> (Inl e, b)
         | Inr za \<Rightarrow>
        (case centralDirectoryArray cd of
           Inl e \<Rightarrow> (Inl e, b)
         | Inr cda \<Rightarrow>
        (case endOfCentralDirectory global_offset cda of
           Inl e \<Rightarrow> (Inl e, b)
         | Inr eocd \<Rightarrow>
        (case zipFile za cda eocd of
           Inl e \<Rightarrow> (Inl e, b)
         | Inr zf \<Rightarrow>
             (let zipBlob = \<lparr>blob_bytes = zf, blob_type = ''application/zip''\<rparr>
              in (Inr zipBlob, download_link b zipBlob zipFileName))))))"

text \<open>
  The module as shipped declares no \<^verbatim>\<open>offset\<close>, and no browser defines a global of that
  name: the page that only loads the library has no binding.
\<close>

definition no_global :: "js_value option" where
  "no_global = None"

subsection \<open>What File.zip builds, in closed form\<close>

text \<open>
  The lists that the loops build when nothing throws, written without the typed-array
  copies: the entry of a file, the central directory record of a file, and the whole
  buffer for a global \<^verbatim>\<open>offset\<close> of value \<open>v\<close>. The lemmas below relate them to the
  functions above.
\<close>

definition all_ascii :: "text_file list \<Rightarrow> bool" where
  "all_ascii files = list_all (\<lambda>file. is_ascii (name file)) files"

definition entry_bytes :: "text_file \<Rightarrow> byte list" where
  "entry_bytes file =
     local_header (zip_datum_of file) @ TextEncoder_encode (name file)
       @ TextEncoder_encode (content file)"

definition record_bytes :: "cd_entry \<Rightarrow> byte list" where
  "record_bytes file = central_header file @ TextEncoder_encode (cd_name file)"

definition archive_bytes :: "js_value \<Rightarrow> text_file list \<Rightarrow> byte list" where
  "archive_bytes v files =
     (let records = map record_bytes (centralDirectory 0 (zipData files))
      in concat (map entry_bytes files) @ concat records
           @ eocd_record (ToInt32 (Number (int (length records))))
               (ToInt32 (Number (int (total_length records)))) (ToInt32 v))"

text \<open>Little-endian fields of a byte array, read at index \<open>i\<close>.\<close>

definition le16 :: "byte list \<Rightarrow> nat \<Rightarrow> nat" where
  "le16 bs i = unat (bs ! i) + 256 * unat (bs ! (i + 1))"

definition le32 :: "byte list \<Rightarrow> nat \<Rightarrow> nat" where
  "le32 bs i = le16 bs i + 65536 * le16 bs (i + 2)"

section \<open>File.unzip\<close>

text \<open>
  \<^verbatim>\<open>File.unzip(zipBlob)\<close> returns a Promise and leaves all the parsing to two objects that
  are not part of the library: a \<^verbatim>\<open>FileReader\<close> and \<^verbatim>\<open>JSZip\<close>, an identifier the module
  does not declare. Their behaviour is a parameter of the model:
  \<^item> \<open>readAsArrayBuffer\<close>: the buffer given to \<^verbatim>\<open>onload\<close>, or \<open>None\<close> when the reader
    fires \<^verbatim>\<open>onerror\<close>;
  \<^item> \<open>JSZip\<close>: \<open>None\<close> when the page defines no global \<^verbatim>\<open>JSZip\<close>; otherwise
    \<open>loadAsync\<close> either rejects with an error of the given message or yields the entries
    that \<^verbatim>\<open>zip.forEach\<close> visits;
  \<^item> for each entry, \<open>zo_file\<close>: \<open>None\<close> when \<^verbatim>\<open>zipFiles.file(zipEntry.name)\<close> is
    \<^verbatim>\<open>null\<close>; otherwise how the Promise of \<^verbatim>\<open>.async("string")\<close> settles, rejected with a
    message or fulfilled with the text;
  \<^item> \<open>null_message\<close>: the message of the TypeError that the engine raises for
    \<^verbatim>\<open>null.async\<close>.
\<close>

record zip_object =
  zo_name :: js_string
  zo_file :: "(string + js_string) option"

record jszip =
  loadAsync :: "byte list \<Rightarrow> string + zip_object list"

record unzip_env =
  readAsArrayBuffer :: "byte list \<Rightarrow> byte list option"
  JSZip :: "jszip option"
  null_message :: string

text \<open>
  The callback of \<^verbatim>\<open>zip.forEach\<close>, run on each entry in turn. It throws when
  \<^verbatim>\<open>file(name)\<close> is \<^verbatim>\<open>null\<close>, which ends the loop (\<open>Inl\<close>, with the message). Otherwise
  it registers \<^verbatim>\<open>extractedFiles.push({name, content})\<close> on the Promise of the read, with
  no handler for a rejection. Each push happens when its read completes, in an order that
  is JSZip's and not the order of the entries: the result (\<open>Inr\<close>) is the multiset of the
  objects pushed once every read has settled, one for each entry whose read is fulfilled.
\<close>

fun forEach_entry :: "string \<Rightarrow> zip_object list \<Rightarrow> string + text_file multiset" where
  "forEach_entry null_msg [] = Inr {#}"
| "forEach_entry null_msg (zipEntry # rest) =
     (case zo_file zipEntry of
        None \<Rightarrow> Inl null_msg
      | Some read \<Rightarrow>
          (case forEach_entry null_msg rest of
             Inl message \<Rightarrow> Inl message
           | Inr pushed \<Rightarrow>
               (case read of
                  Inl message \<Rightarrow> Inr pushed
                | Inr text \<Rightarrow>
                    Inr (add_mset \<lparr>name = zo_name zipEntry, content = text\<rparr> pushed))))"

text \<open>
  How the returned Promise settles. \<open>Pending\<close>: neither \<^verbatim>\<open>resolve\<close> nor \<^verbatim>\<open>reject\<close> is
  ever called (\<^verbatim>\<open>new JSZip()\<close> throws a ReferenceError inside the \<^verbatim>\<open>onload\<close> handler).
  \<open>Rejected\<close>: \<^verbatim>\<open>reject\<close> is called with the error. \<open>Fulfilled\<close>:
  \<^verbatim>\<open>resolve(extractedFiles)\<close> is called. That happens as soon as the loop has ended,
  because \<^verbatim>\<open>Promise.all\<close> is given \<^verbatim>\<open>extractedFiles\<close> itself, which is still empty then,
  and not the Promises of the reads; the value carried here is the content of that array
  once every read has settled, without its order.
\<close>

datatype settlement = Pending | Fulfilled "text_file multiset" | Rejected error

definition unzip :: "unzip_env \<Rightarrow> byte list \<Rightarrow> settlement" where
  "unzip env zipBlob =
     (case readAsArrayBuffer env zipBlob of
        None \<Rightarrow> Rejected (Error ''Error reading zip file.'')
      | Some arrayBuffer \<Rightarrow>
     (case JSZip env of
        None \<Rightarrow> Pending
      | Some jz \<Rightarrow>
     (case loadAsync jz arrayBuffer of
        Inl message \<Rightarrow> Rejected (Error (''Failed to unzip the file: '' @ message))
      | Inr zipFiles \<Rightarrow>
     (case forEach_entry (null_message env) zipFiles of
        Inl message \<Rightarrow> Rejected (Error (''Failed to unzip the file: '' @ message))
      | Inr extractedFiles \<Rightarrow> Fulfilled extractedFiles))))"

section \<open>The specification's terms\<close>

text \<open>
  CRC-32 as ZIP uses it (reflected polynomial \<open>0xEDB88320\<close>, initial value and final
  complement \<open>0xFFFFFFFF\<close>). The library has no such function; the specification compares
  header fields with it.
\<close>

definition crc32_step :: "32 word \<Rightarrow> 32 word" where
  "crc32_step c = (if bit c 0 then drop_bit 1 c XOR 0xEDB88320 else drop_bit 1 c)"

definition crc32_byte :: "32 word \<Rightarrow> byte \<Rightarrow> 32 word" where
  "crc32_byte c b = (crc32_step ^^ 8) (c XOR ucast b)"

definition spec_crc32 :: "byte list \<Rightarrow> 32 word" where
  "spec_crc32 bs = foldl crc32_byte 0xFFFFFFFF bs XOR 0xFFFFFFFF"

text \<open>
  The local file header of the ZIP format, as the specification lists its fields: the
  CRC-32 at byte 14, the compressed size at 18, the name length at 26, the extra-field
  length at 28, then the name, the extra field and the content. \<open>spec_declared_crc\<close> and
  \<open>spec_content\<close> read the first entry of an archive.
\<close>

definition spec_declared_crc :: "byte list \<Rightarrow> nat" where
  "spec_declared_crc archive = le32 archive 14"

definition spec_content :: "byte list \<Rightarrow> byte list" where
  "spec_content archive =
     take (le32 archive 18) (drop (30 + le16 archive 26 + le16 archive 28) archive)"

text \<open>
  A stored archive with the single entry \<^verbatim>\<open>a\<close>, whose header declares the CRC-32 of the
  content \<^verbatim>\<open>x\<close> and whose content byte has been changed to \<^verbatim>\<open>y\<close>.
\<close>

definition flipped_archive :: "byte list" where
  "flipped_archive =
     [80, 75, 3, 4, 10, 0, 0, 0, 0, 0, 0, 0, 0, 0, 131, 22, 220, 140, 1, 0, 0, 0, 1, 0, 0, 0,
      1, 0, 0, 0, 97, 121,
      80, 75, 1, 2, 10, 0, 10, 0, 0, 0, 0, 0, 0, 0, 0, 0, 131, 22, 220, 140, 1, 0, 0, 0,
      1, 0, 0, 0, 1, 0, 0, 0, 0, 0, 0, 0, 0, 0, 0, 0, 0, 0, 0, 0, 0, 0, 97,
      80, 75, 5, 6, 0, 0, 0, 0, 1, 0, 1, 0, 47, 0, 0, 0, 32, 0, 0, 0, 0, 0]"

text \<open>
  A page whose JSZip loads that archive as the code calls it: without the
  \<^verbatim>\<open>checkCRC32\<close> option JSZip compares no checksum and delivers the entry with the
  changed content.
\<close>

definition lenient_page :: unzip_env where
  "lenient_page =
     \<lparr>readAsArrayBuffer = Some,
      JSZip = Some \<lparr>loadAsync =
        (\<lambda>buffer. Inr [\<lparr>zo_name = js ''a'', zo_file = Some (Inr (js ''y''))\<rparr>])\<rparr>,
      null_message = ''Cannot read properties of null (reading 'async')''\<rparr>"

text \<open>A page whose JSZip is given a buffer that is no archive and rejects it.\<close>

definition no_archive_page :: unzip_env where
  "no_archive_page =
     \<lparr>readAsArrayBuffer = Some,
      JSZip = Some \<lparr>loadAsync =
        (\<lambda>buffer. Inl ''Can't find end of central directory : is this a zip file ?'')\<rparr>,
      null_message = ''Cannot read properties of null (reading 'async')''\<rparr>"

text \<open>
  A page whose JSZip lists two entries of an archive and fails to read the text of the
  second (its compressed data is damaged).
\<close>

definition damaged_entry_page :: unzip_env where
  "damaged_entry_page =
     \<lparr>readAsArrayBuffer = Some,
      JSZip = Some \<lparr>loadAsync =
        (\<lambda>buffer. Inr [\<lparr>zo_name = js ''a'', zo_file = Some (Inr (js ''x''))\<rparr>,
                        \<lparr>zo_name = js ''b'', zo_file = Some (Inl ''invalid block type'')\<rparr>])\<rparr>,
      null_message = ''Cannot read properties of null (reading 'async')''\<rparr>"

text \<open>
  A page whose JSZip loads an archive that holds the folder \<^verbatim>\<open>d/\<close> and the file
  \<^verbatim>\<open>d/a\<close>: for the folder, \<^verbatim>\<open>zipFiles.file(name)\<close> is \<^verbatim>\<open>null\<close>.
\<close>

definition folder_page :: unzip_env where
  "folder_page =
     \<lparr>readAsArrayBuffer = Some,
      JSZip = Some \<lparr>loadAsync =
        (\<lambda>buffer. Inr [\<lparr>zo_name = js ''d/'', zo_file = None\<rparr>,
                        \<lparr>zo_name = js ''d/a'', zo_file = Some (Inr (js ''x''))\<rparr>])\<rparr>,
      null_message = ''Cannot read properties of null (reading 'async')''\<rparr>"

section \<open>Properties of the browser functions\<close>


lemma typed_set_fresh:
  "length xs \<le> n \<Longrightarrow> typed_set (new_Uint8Array n) xs 0 = Inr (xs @ replicate (n - length xs) 0)"
  by (simp add: typed_set_def new_Uint8Array_def)

lemma typed_set_tail:
  "typed_set (xs @ replicate k 0) ys (length xs) =
     (if k < length ys then Inl RangeError else Inr (xs @ ys @ replicate (k - length ys) 0))"
  by (simp add: typed_set_def)

lemma length_utf8_of_scalar: "Suc 0 \<le> length (utf8_of_scalar c)"
  by (simp add: utf8_of_scalar_def)

lemma length_utf8_unit:
  "length (utf8_of_scalar (scalar_of_unit u)) = Suc 0 \<longleftrightarrow> unat u < 0x80"
  by (auto simp: utf8_of_scalar_def scalar_of_unit_def is_high_surrogate_def is_low_surrogate_def)

lemma length_utf8_pair:
  "is_high_surrogate u \<Longrightarrow> length (utf8_of_scalar (scalar_of_pair u v)) = 4"
  by (auto simp: utf8_of_scalar_def scalar_of_pair_def is_high_surrogate_def)

lemma TextEncoder_encode_pair:
  "is_high_surrogate u \<and> is_low_surrogate v \<Longrightarrow>
     TextEncoder_encode (u # v # us) = utf8_of_scalar (scalar_of_pair u v) @ TextEncoder_encode us"
  by simp

lemma TextEncoder_encode_unit:
  "\<not> (is_high_surrogate u \<and> is_low_surrogate v) \<Longrightarrow>
     TextEncoder_encode (u # v # us) =
       utf8_of_scalar (scalar_of_unit u) @ TextEncoder_encode (v # us)"
  by auto

lemma TextEncoder_encode_length_ge: "length s \<le> length (TextEncoder_encode s)"
proof (induction s rule: TextEncoder_encode.induct)
  case 1
  show ?case by simp
next
  case (2 u)
  show ?case using length_utf8_of_scalar [of "scalar_of_unit u"] by simp
next
  case (3 u v us)
  show ?case
  proof (cases "is_high_surrogate u \<and> is_low_surrogate v")
    case True
    from 3(1) [OF True] have "length us \<le> length (TextEncoder_encode us)" .
    then show ?thesis
      using True by (simp add: TextEncoder_encode_pair [OF True] length_utf8_pair del: TextEncoder_encode.simps)
  next
    case False
    from 3(2) [OF False] have "length (v # us) \<le> length (TextEncoder_encode (v # us))" .
    then show ?thesis
      using length_utf8_of_scalar [of "scalar_of_unit u"]
      by (simp add: TextEncoder_encode_unit [OF False] del: TextEncoder_encode.simps)
  qed
qed

lemma TextEncoder_encode_length_eq:
  "length (TextEncoder_encode s) = length s \<longleftrightarrow> is_ascii s"
proof (induction s rule: TextEncoder_encode.induct)
  case 1
  show ?case by (simp add: is_ascii_def)
next
  case (2 u)
  show ?case using length_utf8_unit [of u] by (simp add: is_ascii_def)
next
  case (3 u v us)
  show ?case
  proof (cases "is_high_surrogate u \<and> is_low_surrogate v")
    case True
    then have na: "\<not> unat u < 0x80" by (simp add: is_high_surrogate_def)
    have "length us \<le> length (TextEncoder_encode us)"
      by (rule TextEncoder_encode_length_ge)
    then have "length (TextEncoder_encode (u # v # us)) \<noteq> length (u # v # us)"
      using True by (simp add: TextEncoder_encode_pair [OF True] length_utf8_pair del: TextEncoder_encode.simps)
    moreover have "\<not> is_ascii (u # v # us)" using na by (simp add: is_ascii_def)
    ultimately show ?thesis by simp
  next
    case False
    have ge: "length (v # us) \<le> length (TextEncoder_encode (v # us))"
      by (rule TextEncoder_encode_length_ge)
    have one: "Suc 0 \<le> length (utf8_of_scalar (scalar_of_unit u))"
      by (rule length_utf8_of_scalar)
    have ih: "length (TextEncoder_encode (v # us)) = length (v # us) \<longleftrightarrow> is_ascii (v # us)"
      by (rule 3(2) [OF False])
    have len: "length (TextEncoder_encode (u # v # us)) =
        length (utf8_of_scalar (scalar_of_unit u)) + length (TextEncoder_encode (v # us))"
      by (simp only: TextEncoder_encode_unit [OF False] length_append)
    have asc: "is_ascii (u # v # us) \<longleftrightarrow> unat u < 0x80 \<and> is_ascii (v # us)"
      by (simp add: is_ascii_def)
    show ?thesis
    proof (cases "unat u < 0x80")
      case True
      then have "length (utf8_of_scalar (scalar_of_unit u)) = Suc 0"
        using length_utf8_unit [of u] by simp
      with ih True show ?thesis unfolding len asc by simp
    next
      case nonascii: False
      then have "length (utf8_of_scalar (scalar_of_unit u)) \<noteq> Suc 0"
        using length_utf8_unit [of u] by simp
      with one have "2 \<le> length (utf8_of_scalar (scalar_of_unit u))" by simp
      with ge nonascii show ?thesis unfolding len asc by simp
    qed
  qed
qed

lemma TextEncoder_encode_ascii:
  "is_ascii s \<Longrightarrow> TextEncoder_encode s = map ucast s"
proof (induction s rule: TextEncoder_encode.induct)
  case 1
  show ?case by simp
next
  case (2 u)
  then show ?case
    by (simp add: is_ascii_def scalar_of_unit_def utf8_of_scalar_def is_high_surrogate_def is_low_surrogate_def)
next
  case (3 u v us)
  then show ?case
    by (simp add: is_ascii_def scalar_of_unit_def utf8_of_scalar_def is_high_surrogate_def is_low_surrogate_def)
qed

section \<open>The loops of File.zip\<close>


lemma fileEntry_eq:
  "fileEntry file =
     (if is_ascii (zd_name file)
      then Inr (local_header file @ TextEncoder_encode (zd_name file) @ zd_content file)
      else Inl RangeError)"
proof -
  let ?h = "local_header file"
  let ?n = "length (zd_name file)"
  let ?e = "TextEncoder_encode (zd_name file)"
  have s1: "typed_set (new_Uint8Array (length ?h + ?n)) ?h 0 = Inr (?h @ replicate ?n 0)"
    using typed_set_fresh [of ?h "length ?h + ?n"] by simp
  have s2: "typed_set (?h @ replicate ?n 0) ?e (length ?h) =
      (if ?n < length ?e then Inl RangeError else Inr (?h @ ?e @ replicate (?n - length ?e) 0))"
    by (rule typed_set_tail)
  show ?thesis
  proof (cases "is_ascii (zd_name file)")
    case True
    then have len: "length ?e = ?n" by (simp add: TextEncoder_encode_length_eq)
    have s2': "typed_set (?h @ replicate ?n 0) ?e (length ?h) = Inr (?h @ ?e)"
      unfolding s2 using len by simp
    have s3: "typed_set (new_Uint8Array (length (?h @ ?e) + length (zd_content file))) (?h @ ?e) 0
        = Inr ((?h @ ?e) @ replicate (length (zd_content file)) 0)"
      using typed_set_fresh [of "?h @ ?e" "length (?h @ ?e) + length (zd_content file)"] by simp
    have s4: "typed_set ((?h @ ?e) @ replicate (length (zd_content file)) 0) (zd_content file)
        (length (?h @ ?e)) = Inr ((?h @ ?e) @ zd_content file)"
      using typed_set_tail [of "?h @ ?e" "length (zd_content file)" "zd_content file"] by simp
    show ?thesis
      unfolding fileEntry_def Let_def s1 sum.case s2' s3 s4 using True by simp
  next
    case False
    then have "length ?e \<noteq> ?n" by (simp add: TextEncoder_encode_length_eq)
    with TextEncoder_encode_length_ge [of "zd_name file"] have "?n < length ?e" by simp
    then have s2': "typed_set (?h @ replicate ?n 0) ?e (length ?h) = Inl RangeError"
      unfolding s2 by simp
    show ?thesis
      unfolding fileEntry_def Let_def s1 sum.case s2' using False by simp
  qed
qed

lemma central_record_eq:
  "central_record file =
     (if is_ascii (cd_name file)
      then Inr (central_header file @ TextEncoder_encode (cd_name file))
      else Inl RangeError)"
proof -
  let ?h = "central_header file"
  let ?n = "length (cd_name file)"
  let ?e = "TextEncoder_encode (cd_name file)"
  have s1: "typed_set (new_Uint8Array (length ?h + ?n)) ?h 0 = Inr (?h @ replicate ?n 0)"
    using typed_set_fresh [of ?h "length ?h + ?n"] by simp
  have s2: "typed_set (?h @ replicate ?n 0) ?e (length ?h) =
      (if ?n < length ?e then Inl RangeError else Inr (?h @ ?e @ replicate (?n - length ?e) 0))"
    by (rule typed_set_tail)
  show ?thesis
  proof (cases "is_ascii (cd_name file)")
    case True
    then have len: "length ?e = ?n" by (simp add: TextEncoder_encode_length_eq)
    have s2': "typed_set (?h @ replicate ?n 0) ?e (length ?h) = Inr (?h @ ?e)"
      unfolding s2 using len by simp
    show ?thesis
      unfolding central_record_def Let_def s1 sum.case s2' using True by simp
  next
    case False
    then have "length ?e \<noteq> ?n" by (simp add: TextEncoder_encode_length_eq)
    with TextEncoder_encode_length_ge [of "cd_name file"] have "?n < length ?e" by simp
    then have s2': "typed_set (?h @ replicate ?n 0) ?e (length ?h) = Inl RangeError"
      unfolding s2 by simp
    show ?thesis
      unfolding central_record_def Let_def s1 sum.case s2' using False by simp
  qed
qed

lemma forEach_push_guarded:
  assumes "\<And>x. f x = (if P x then Inr (g x) else Inl RangeError)"
  shows "forEach_push f xs = (if list_all P xs then Inr (map g xs) else Inl RangeError)"
proof (induction xs)
  case Nil
  show ?case by simp
next
  case (Cons x xs)
  show ?case
  proof (cases "P x")
    case True
    then have "f x = Inr (g x)" by (simp add: assms)
    with Cons True show ?thesis by simp
  next
    case False
    then have "f x = Inl RangeError" by (simp add: assms)
    with False show ?thesis by simp
  qed
qed

lemma total_length_concat: "total_length arrays = length (concat arrays)"
proof -
  have "foldl (\<lambda>acc entry. acc + length entry) k arrays = k + length (concat arrays)" for k
    by (induction arrays arbitrary: k) simp_all
  from this [of 0] show ?thesis by (simp add: total_length_def)
qed

lemma set_each_fits:
  "currentOffset + length (concat entries) \<le> length buf \<Longrightarrow>
     set_each entries (buf, currentOffset) =
       Inr (take currentOffset buf @ concat entries @
              drop (currentOffset + length (concat entries)) buf,
            currentOffset + length (concat entries))"
proof (induction entries arbitrary: buf currentOffset)
  case Nil
  show ?case by simp
next
  case (Cons entry rest)
  let ?buf' = "take currentOffset buf @ entry @ drop (currentOffset + length entry) buf"
  from Cons.prems have fit: "length entry + currentOffset \<le> length buf" by simp
  then have step: "typed_set buf entry currentOffset = Inr ?buf'"
    by (simp add: typed_set_def)
  have len': "length ?buf' = length buf" using fit by simp
  have "(currentOffset + length entry) + length (concat rest) \<le> length ?buf'"
    using Cons.prems len' by simp
  from Cons.IH [OF this]
  have ih: "set_each rest (?buf', currentOffset + length entry) =
      Inr (take (currentOffset + length entry) ?buf' @ concat rest @
             drop (currentOffset + length entry + length (concat rest)) ?buf',
           currentOffset + length entry + length (concat rest))" .
  have t: "take (currentOffset + length entry) ?buf' = take currentOffset buf @ entry"
    using fit by simp
  have d: "drop (currentOffset + length entry + length (concat rest)) ?buf' =
      drop (currentOffset + length entry + length (concat rest)) buf"
    using fit by (simp add: add.commute add.left_commute)
  show ?case
    unfolding set_each.simps step sum.case ih t d by (simp add: add.assoc)
qed

lemma zipFile_eq: "zipFile za cda eocd = Inr (concat za @ concat cda @ eocd)"
proof -
  let ?n = "length (concat za) + length (concat cda) + length eocd"
  let ?buf = "replicate ?n (0 :: byte)"
  have s1: "set_each za (?buf, 0) =
      Inr (concat za @ replicate (length (concat cda) + length eocd) 0, length (concat za))"
    using set_each_fits [of 0 za ?buf] by simp
  let ?buf1 = "concat za @ replicate (length (concat cda) + length eocd) (0 :: byte)"
  have s2: "set_each cda (?buf1, length (concat za)) =
      Inr (concat za @ concat cda @ replicate (length eocd) 0,
           length (concat za) + length (concat cda))"
    using set_each_fits [of "length (concat za)" cda ?buf1] by simp
  have s3: "typed_set (concat za @ concat cda @ replicate (length eocd) 0) eocd
      (length (concat za) + length (concat cda)) = Inr (concat za @ concat cda @ eocd)"
    using typed_set_tail [of "concat za @ concat cda" "length eocd" eocd] by simp
  show ?thesis
    unfolding zipFile_def total_length_concat new_Uint8Array_def s1 sum.case prod.case s2 s3 ..
qed

section \<open>File.zip in closed form\<close>


lemma zip_datum_of_sel:
  "zd_name (zip_datum_of file) = name file"
  "zd_content (zip_datum_of file) = TextEncoder_encode (content file)"
  "zd_contentLength (zip_datum_of file) = length (TextEncoder_encode (content file))"
  by (simp_all add: zip_datum_of_def Let_def)

lemma fileEntry_zip_datum_of:
  "fileEntry (zip_datum_of file) =
     (if is_ascii (name file) then Inr (entry_bytes file) else Inl RangeError)"
  by (simp add: fileEntry_eq zip_datum_of_sel entry_bytes_def)

lemma zipArray_eq:
  "zipArray (zipData files) =
     (if all_ascii files then Inr (map entry_bytes files) else Inl RangeError)"
proof -
  have "forEach_push fileEntry (map zip_datum_of files) =
      forEach_push (\<lambda>file. fileEntry (zip_datum_of file)) files"
    by (induction files) (simp_all split: sum.splits)
  also have "\<dots> = (if list_all (\<lambda>file. is_ascii (name file)) files
      then Inr (map entry_bytes files) else Inl RangeError)"
    by (rule forEach_push_guarded) (rule fileEntry_zip_datum_of)
  finally show ?thesis by (simp add: zipArray_def zipData_def all_ascii_def)
qed

lemma cd_name_centralDirectory:
  "map cd_name (centralDirectory currentOffset zd) = map zd_name zd"
  by (induction zd arbitrary: currentOffset) simp_all

lemma centralDirectory_ascii:
  "list_all (\<lambda>file. is_ascii (cd_name file)) (centralDirectory 0 (zipData files)) =
     all_ascii files"
proof -
  let ?cd = "centralDirectory 0 (zipData files)"
  have "list_all (\<lambda>file. is_ascii (cd_name file)) ?cd = list_all is_ascii (map cd_name ?cd)"
    by (simp add: list_all_iff)
  also have "map cd_name ?cd = map zd_name (zipData files)"
    by (rule cd_name_centralDirectory)
  also have "\<dots> = map name files"
    by (simp add: zipData_def zip_datum_of_sel)
  also have "list_all is_ascii (map name files) = all_ascii files"
    by (simp add: all_ascii_def list_all_iff)
  finally show ?thesis .
qed

lemma centralDirectoryArray_eq:
  "centralDirectoryArray (centralDirectory 0 (zipData files)) =
     (if all_ascii files
      then Inr (map record_bytes (centralDirectory 0 (zipData files)))
      else Inl RangeError)"
proof -
  have "forEach_push central_record cd =
      (if list_all (\<lambda>file. is_ascii (cd_name file)) cd
       then Inr (map record_bytes cd) else Inl RangeError)" for cd
    by (rule forEach_push_guarded) (simp add: central_record_eq record_bytes_def)
  then show ?thesis by (simp add: centralDirectoryArray_def centralDirectory_ascii)
qed

lemma zip_eq:
  "zip global_offset b files zipFileName =
     (if all_ascii files then
        (case global_offset of
           None \<Rightarrow> (Inl ReferenceError, b)
         | Some v \<Rightarrow>
             (Inr \<lparr>blob_bytes = archive_bytes v files, blob_type = ''application/zip''\<rparr>,
              download_link b
                \<lparr>blob_bytes = archive_bytes v files, blob_type = ''application/zip''\<rparr>
                zipFileName))
      else (Inl RangeError, b))"
proof (cases "all_ascii files")
  case False
  then show ?thesis by (simp add: zip_def Let_def zipArray_eq)
next
  case True
  show ?thesis
  proof (cases global_offset)
    case None
    with True show ?thesis
      by (simp add: zip_def Let_def zipArray_eq centralDirectoryArray_eq endOfCentralDirectory_def)
  next
    case (Some v)
    with True show ?thesis
      by (simp add: zip_def Let_def zipArray_eq centralDirectoryArray_eq
          endOfCentralDirectory_def zipFile_eq archive_bytes_def)
  qed
qed

section \<open>Values at concrete inputs\<close>


lemma funpow_8: "(f ^^ 8) x = f (f (f (f (f (f (f (f x)))))))"
  by (simp add: numeral_eq_Suc)

lemma encode_hi_there:
  "TextEncoder_encode (js ''Hi there'') = [72, 105, 32, 116, 104, 101, 114, 101]"
  by (simp add: js_def scalar_of_unit_def utf8_of_scalar_def is_high_surrogate_def
      is_low_surrogate_def)

lemma crc32_hi_there:
  "spec_crc32 [72, 105, 32, 116, 104, 101, 114, 101] = 0x1AD514BA"
  by (simp add: spec_crc32_def crc32_byte_def crc32_step_def funpow_8)

lemma crc32_y: "spec_crc32 [121] = 0xFBDB2615"
  by (simp add: spec_crc32_def crc32_byte_def crc32_step_def funpow_8)

lemma flipped_archive_fields:
  "spec_declared_crc flipped_archive = 0x8CDC1683"
  "spec_content flipped_archive = [121]"
  by (simp_all add: spec_declared_crc_def spec_content_def flipped_archive_def le32_def le16_def)

lemma eocd_record_zero:
  "eocd_record 0 0 0 = [80, 75, 5, 6, 0, 0, 0, 0, 0, 0, 0, 0, 0, 0, 0, 0, 0, 0, 0, 0, 0, 0]"
  by (simp add: eocd_record_def js_and_def js_shr_def uint8_of_int32_def uint8_def)

lemma zip_empty_with_global_offset:
  "zip (Some Undefined) b [] zipFileName =
     (Inr \<lparr>blob_bytes = [80, 75, 5, 6, 0, 0, 0, 0, 0, 0, 0, 0, 0, 0, 0, 0, 0, 0, 0, 0, 0, 0],
           blob_type = ''application/zip''\<rparr>,
      download_link b
        \<lparr>blob_bytes = [80, 75, 5, 6, 0, 0, 0, 0, 0, 0, 0, 0, 0, 0, 0, 0, 0, 0, 0, 0, 0, 0],
         blob_type = ''application/zip''\<rparr> zipFileName)"
  by (simp add: zip_eq all_ascii_def archive_bytes_def zipData_def total_length_def
      eocd_record_zero)

lemma local_header_fields:
  "length (local_header d) = 32"
  "take 4 (local_header d) = [80, 75, 3, 4]"
  "le32 (local_header d @ rest) 14 = 0"
  "le32 (local_header d @ rest) 18 = 0"
  "le32 (local_header d @ rest) 22 = 0"
  "le32 (local_header d @ rest) 26 = 0"
  by (simp_all add: local_header_def le32_def le16_def)

lemma hello_ascii: "all_ascii [\<lparr>name = js ''hello.txt'', content = js ''Hi there''\<rparr>]"
  by (simp add: all_ascii_def is_ascii_def js_def)

lemma two_files_ascii:
  "all_ascii [\<lparr>name = js ''a'', content = js ''x''\<rparr>, \<lparr>name = js ''b'', content = js ''y''\<rparr>]"
  by (simp add: all_ascii_def is_ascii_def js_def)

lemma central_header_offset_field:
  "length (central_header c) = 48"
  "central_header c ! 46 = 0"
  "central_header c ! 47 = 0"
  by (simp_all add: central_header_def file_currentOffset_def js_and_def js_shr_def
      uint8_of_int32_def uint8_def)

lemma two_files_archive:
  "archive_bytes (Number 0)
     [\<lparr>name = js ''a'', content = js ''x''\<rparr>, \<lparr>name = js ''b'', content = js ''y''\<rparr>] =
   [80, 75, 3, 4, 10, 0, 0, 0, 0, 0, 0, 0, 0, 0, 0, 0, 0, 0, 0, 0, 0, 0, 0, 0, 0, 0,
    0, 0, 0, 0, 1, 0, 97, 120,
    80, 75, 3, 4, 10, 0, 0, 0, 0, 0, 0, 0, 0, 0, 0, 0, 0, 0, 0, 0, 0, 0, 0, 0, 0, 0,
    0, 0, 0, 0, 1, 0, 98, 121,
    80, 75, 1, 2, 10, 0, 10, 0, 0, 0, 0, 0, 0, 0, 0, 0, 0, 0, 0, 0, 0, 0, 0, 0, 0, 0, 0, 0,
    0, 0, 0, 0, 1, 0, 0, 0, 0, 0, 0, 0, 0, 0, 0, 0, 0, 0, 0, 0, 97,
    80, 75, 1, 2, 10, 0, 10, 0, 0, 0, 0, 0, 0, 0, 0, 0, 0, 0, 0, 0, 0, 0, 0, 0, 0, 0, 0, 0,
    0, 0, 0, 0, 1, 0, 0, 0, 0, 0, 0, 0, 0, 0, 0, 0, 0, 0, 0, 0, 98,
    80, 75, 5, 6, 0, 0, 0, 0, 0, 0, 0, 0, 2, 0, 2, 0, 98, 0, 0, 0, 0, 0]"
  by (simp add: archive_bytes_def Let_def zipData_def zip_datum_of_def entry_bytes_def
      record_bytes_def local_header_def central_header_def file_currentOffset_def
      eocd_record_def total_length_def js_def js_and_def js_shr_def uint8_of_int32_def
      uint8_def scalar_of_unit_def utf8_of_scalar_def is_high_surrogate_def
      is_low_surrogate_def)

lemma zip_error_cases:
  "fst (zip global_offset b files zipFileName) = Inl e \<Longrightarrow> e = ReferenceError \<or> e = RangeError"
  by (auto simp: zip_eq split: if_splits option.splits)

lemma forEach_entry_throws:
  "forEach_entry null_msg zipFiles = Inl message \<longleftrightarrow>
     (\<exists>zipEntry \<in> set zipFiles. zo_file zipEntry = None) \<and> message = null_msg"
  by (induction zipFiles) (auto split: option.splits sum.splits)

section \<open>The claims\<close>

lemma local_header_name_length:
  "le16 (local_header file) 30 = length (zd_name file) mod 256"
  by (simp add: le16_def local_header_def uint8_def unat_of_nat)

lemma local_header_length: "length (local_header file) = 32"
  by (simp add: local_header_def)

subsection \<open>C2: every call fails\<close>

text \<open>
  C2, as the code has it. In a page that binds no global \<^verbatim>\<open>offset\<close>, \<^verbatim>\<open>File.zip\<close> returns
  no Blob for any list of files: when every name is ASCII (the empty list included) it
  throws the ReferenceError of the read of \<^verbatim>\<open>offset\<close>; when some name has a code unit
  from 0x80 on, the loop over \<^verbatim>\<open>zipData\<close> has already thrown a RangeError, because the
  UTF-8 bytes of that name do not fit the array sized with \<^verbatim>\<open>file.name.length\<close>.
\<close>

theorem zip_fails_in_every_call:
  "zip no_global b files zipFileName =
     (Inl (if all_ascii files then ReferenceError else RangeError), b)"
  by (simp add: zip_eq no_global_def)

theorem zip_fails_in_every_call_witness:
  "all_ascii [\<lparr>name = js ''hello.txt'', content = js ''Hi there''\<rparr>] \<and>
   zip no_global \<lparr>object_urls = [], downloads = []\<rparr>
     [\<lparr>name = js ''hello.txt'', content = js ''Hi there''\<rparr>] (js ''a.zip'')
     = (Inl ReferenceError, \<lparr>object_urls = [], downloads = []\<rparr>)"
proof -
  have a: "all_ascii [\<lparr>name = js ''hello.txt'', content = js ''Hi there''\<rparr>]"
    by (simp add: all_ascii_def is_ascii_def js_def)
  show ?thesis
    using a zip_fails_in_every_call [of "\<lparr>object_urls = [], downloads = []\<rparr>"
        "[\<lparr>name = js ''hello.txt'', content = js ''Hi there''\<rparr>]" "js ''a.zip''"]
    by simp
qed

text \<open>
  C2 as stated (a ReferenceError in every call) fails for the one-character name
  \<^verbatim>\<open>U+00E9\<close>: the call throws a RangeError before \<^verbatim>\<open>offset\<close> is read.
\<close>

theorem zip_non_ascii_name_counterexample:
  "fst (zip no_global \<lparr>object_urls = [], downloads = []\<rparr>
     [\<lparr>name = [0xE9], content = []\<rparr>] (js ''a.zip'')) = Inl RangeError \<and>
   fst (zip no_global \<lparr>object_urls = [], downloads = []\<rparr>
     [\<lparr>name = [0xE9], content = []\<rparr>] (js ''a.zip'')) \<noteq> Inl ReferenceError"
  by (simp add: zip_eq all_ascii_def is_ascii_def)

subsection \<open>C10: declared and encoded name length\<close>

text \<open>
  C10, as the code has it. For an entry whose name has a non-ASCII code unit, the
  name-length field of the local header (bytes 30 and 31) holds \<^verbatim>\<open>file.name.length\<close>
  modulo 256, the low byte of the number of UTF-16 code units, and that is less than the
  number of bytes of \<^verbatim>\<open>new TextEncoder().encode(file.name)\<close>, which is itself more than
  the number of code units. These bytes are never emitted: they do not fit the array sized
  with \<^verbatim>\<open>file.name.length\<close>, so building the entry throws a RangeError.
\<close>

theorem declared_name_length_too_small:
  assumes "\<not> is_ascii (name file)"
  shows "le16 (local_header (zip_datum_of file)) 30 = length (name file) mod 256 \<and>
         length (name file) < length (TextEncoder_encode (name file)) \<and>
         le16 (local_header (zip_datum_of file)) 30 < length (TextEncoder_encode (name file)) \<and>
         fileEntry (zip_datum_of file) = Inl RangeError"
proof -
  have f: "le16 (local_header (zip_datum_of file)) 30 = length (name file) mod 256"
    by (simp add: local_header_name_length zip_datum_of_sel)
  have l: "length (name file) < length (TextEncoder_encode (name file))"
    using assms TextEncoder_encode_length_ge [of "name file"]
      TextEncoder_encode_length_eq [of "name file"] by simp
  have "length (name file) mod 256 \<le> length (name file)" by simp
  with f l have s: "le16 (local_header (zip_datum_of file)) 30
      < length (TextEncoder_encode (name file))" by simp
  have r: "fileEntry (zip_datum_of file) = Inl RangeError"
    using assms by (simp add: fileEntry_zip_datum_of)
  from f l s r show ?thesis by simp
qed

theorem declared_name_length_too_small_witness:
  "\<not> is_ascii (name \<lparr>name = [0xE9], content = []\<rparr>) \<and>
   le16 (local_header (zip_datum_of \<lparr>name = [0xE9], content = []\<rparr>)) 30 = 1 \<and>
   length (TextEncoder_encode (name \<lparr>name = [0xE9], content = []\<rparr>)) = 2 \<and>
   fileEntry (zip_datum_of \<lparr>name = [0xE9], content = []\<rparr>) = Inl RangeError"
proof -
  have n: "\<not> is_ascii (name \<lparr>name = [0xE9], content = []\<rparr>)"
    by (simp add: is_ascii_def)
  have e: "length (TextEncoder_encode (name \<lparr>name = [0xE9], content = []\<rparr>)) = 2"
    by (simp add: scalar_of_unit_def utf8_of_scalar_def is_high_surrogate_def
        is_low_surrogate_def)
  from declared_name_length_too_small [OF n] n e show ?thesis by simp
qed

text \<open>
  C10 as stated fails for a name of 256 code units that ends with \<^verbatim>\<open>U+00E9\<close>: the field
  is 0 and not the string length 256, and no name byte is emitted, since building the entry
  throws.
\<close>

theorem declared_name_length_counterexample:
  "\<not> is_ascii (name \<lparr>name = replicate 255 0x61 @ [0xE9], content = []\<rparr>) \<and>
   length (name \<lparr>name = replicate 255 0x61 @ [0xE9], content = []\<rparr>) = 256 \<and>
   le16 (local_header (zip_datum_of \<lparr>name = replicate 255 0x61 @ [0xE9], content = []\<rparr>)) 30
     = 0 \<and>
   fileEntry (zip_datum_of \<lparr>name = replicate 255 0x61 @ [0xE9], content = []\<rparr>)
     = Inl RangeError"
proof -
  have n: "\<not> is_ascii (name \<lparr>name = replicate 255 0x61 @ [0xE9], content = []\<rparr>)"
    by (simp add: is_ascii_def)
  have l: "length (name \<lparr>name = replicate 255 0x61 @ [0xE9], content = []\<rparr>) = 256"
    by simp
  have f: "le16 (local_header (zip_datum_of \<lparr>name = replicate 255 0x61 @ [0xE9],
      content = []\<rparr>)) 30 = 0"
    by (simp add: local_header_name_length zip_datum_of_sel)
  have r: "fileEntry (zip_datum_of \<lparr>name = replicate 255 0x61 @ [0xE9], content = []\<rparr>)
      = Inl RangeError"
    using n by (simp add: fileEntry_zip_datum_of)
  from n l f r show ?thesis by simp
qed

subsection \<open>C1: round trip\<close>

text \<open>
  C1 asks that \<^verbatim>\<open>File.unzip\<close> of the Blob returned by \<^verbatim>\<open>File.zip\<close> gives the entries
  back. In a page that only loads the library, \<^verbatim>\<open>File.zip\<close> returns no Blob for the
  entry \<^verbatim>\<open>hello.txt\<close> with content \<^verbatim>\<open>Hi there\<close>: the call throws the ReferenceError of
  the read of \<^verbatim>\<open>offset\<close>, so there is nothing to decode.
\<close>

theorem zip_hello_throws:
  "zip no_global b [\<lparr>name = js ''hello.txt'', content = js ''Hi there''\<rparr>] zipFileName
     = (Inl ReferenceError, b)"
  by (simp add: zip_eq no_global_def all_ascii_def is_ascii_def js_def)

subsection \<open>C8: the empty archive\<close>

text \<open>
  C8 asks that \<^verbatim>\<open>File.zip\<close> of the empty list returns a buffer that holds one
  end-of-central-directory record. In a page that only loads the library the call
  throws the ReferenceError of the read of \<^verbatim>\<open>offset\<close> and returns nothing.
  (\<open>zip_empty_with_global_offset\<close> above: were \<^verbatim>\<open>offset\<close> bound, the 22 bytes of the
  empty archive would come out.)
\<close>

theorem zip_empty_throws: "zip no_global b [] zipFileName = (Inl ReferenceError, b)"
  by (simp add: zip_eq no_global_def all_ascii_def)

subsection \<open>C3: local file headers\<close>

text \<open>
  C3, as the code has it. For a list whose names are all ASCII, the loop over
  \<^verbatim>\<open>zipData\<close> builds one entry per file, in input order: the 32 bytes of the header, which
  start with the local-file-header signature and whose CRC-32 field is zero (both at
  byte 18, where the code has it, and at byte 14, where the ZIP format has it), then the
  name bytes, then the content bytes. The library computes no CRC-32. When the
  page binds a global \<^verbatim>\<open>offset\<close>, the returned Blob starts with these entries.
\<close>

theorem local_entries_as_built:
  assumes "all_ascii files"
  shows "zipArray (zipData files) =
           Inr (map (\<lambda>file. local_header (zip_datum_of file) @ TextEncoder_encode (name file)
                              @ TextEncoder_encode (content file)) files) \<and>
         (\<forall>file. length (local_header (zip_datum_of file)) = 32 \<and>
                 take 4 (local_header (zip_datum_of file)) = [80, 75, 3, 4] \<and>
                 le32 (local_header (zip_datum_of file)) 14 = 0 \<and>
                 le32 (local_header (zip_datum_of file)) 18 = 0) \<and>
         (\<exists>rest. zip (Some v) b files zipFileName =
            (Inr \<lparr>blob_bytes =
                    concat (map (\<lambda>file. local_header (zip_datum_of file)
                                   @ TextEncoder_encode (name file)
                                   @ TextEncoder_encode (content file)) files) @ rest,
                  blob_type = ''application/zip''\<rparr>,
             download_link b
               \<lparr>blob_bytes =
                  concat (map (\<lambda>file. local_header (zip_datum_of file)
                                 @ TextEncoder_encode (name file)
                                 @ TextEncoder_encode (content file)) files) @ rest,
                blob_type = ''application/zip''\<rparr> zipFileName))"
proof -
  have eb: "entry_bytes = (\<lambda>file. local_header (zip_datum_of file) @ TextEncoder_encode (name file)
      @ TextEncoder_encode (content file))"
    by (rule ext) (simp add: entry_bytes_def)
  have built: "zipArray (zipData files) = Inr (map entry_bytes files)"
    using assms by (simp add: zipArray_eq)
  have fields: "length (local_header d) = 32 \<and> take 4 (local_header d) = [80, 75, 3, 4] \<and>
      le32 (local_header d) 14 = 0 \<and> le32 (local_header d) 18 = 0" for d
    by (simp add: local_header_def le32_def le16_def)
  have out: "\<exists>rest. zip (Some v) b files zipFileName =
      (Inr \<lparr>blob_bytes = concat (map entry_bytes files) @ rest,
            blob_type = ''application/zip''\<rparr>,
       download_link b \<lparr>blob_bytes = concat (map entry_bytes files) @ rest,
         blob_type = ''application/zip''\<rparr> zipFileName)"
    using assms by (simp add: zip_eq archive_bytes_def Let_def)
  from built fields out show ?thesis unfolding eb by blast
qed

theorem local_entries_as_built_witness:
  "all_ascii [\<lparr>name = js ''hello.txt'', content = js ''Hi there''\<rparr>] \<and>
   zipArray (zipData [\<lparr>name = js ''hello.txt'', content = js ''Hi there''\<rparr>]) =
     Inr [[80, 75, 3, 4, 10, 0, 0, 0, 0, 0, 0, 0, 0, 0, 0, 0, 0, 0, 0, 0, 0, 0, 0, 0, 0, 0,
           0, 0, 0, 0, 9, 0,
           104, 101, 108, 108, 111, 46, 116, 120, 116,
           72, 105, 32, 116, 104, 101, 114, 101]]"
proof -
  have n: "TextEncoder_encode (js ''hello.txt'') = [104, 101, 108, 108, 111, 46, 116, 120, 116]"
    by (simp add: js_def scalar_of_unit_def utf8_of_scalar_def is_high_surrogate_def
        is_low_surrogate_def)
  have h: "local_header (zip_datum_of \<lparr>name = js ''hello.txt'', content = js ''Hi there''\<rparr>) =
      [80, 75, 3, 4, 10, 0, 0, 0, 0, 0, 0, 0, 0, 0, 0, 0, 0, 0, 0, 0, 0, 0, 0, 0, 0, 0,
       0, 0, 0, 0, 9, 0]"
    by (simp add: local_header_def zip_datum_of_sel js_def uint8_def)
  from local_entries_as_built [OF hello_ascii, of Undefined "\<lparr>object_urls = [], downloads = []\<rparr>" "[]"]
  have "zipArray (zipData [\<lparr>name = js ''hello.txt'', content = js ''Hi there''\<rparr>]) =
      Inr (map (\<lambda>file. local_header (zip_datum_of file) @ TextEncoder_encode (name file)
                              @ TextEncoder_encode (content file))
            [\<lparr>name = js ''hello.txt'', content = js ''Hi there''\<rparr>])"
    by (rule conjunct1)
  then show ?thesis using hello_ascii by (simp add: h n encode_hi_there)
qed

text \<open>
  C3 as stated fails for the entry \<^verbatim>\<open>hello.txt\<close> with content \<^verbatim>\<open>Hi there\<close>: the
  CRC-32 of the content is \<open>0x1AD514BA\<close> and its length is 8, and the CRC-32 field and
  the two size fields (bytes 22 and 26) of the header are 0.
\<close>

theorem local_header_crc_and_sizes_counterexample:
  "zipArray (zipData [\<lparr>name = js ''hello.txt'', content = js ''Hi there''\<rparr>]) =
     Inr [entry_bytes \<lparr>name = js ''hello.txt'', content = js ''Hi there''\<rparr>] \<and>
   le32 (entry_bytes \<lparr>name = js ''hello.txt'', content = js ''Hi there''\<rparr>) 18
     \<noteq> unat (spec_crc32 (TextEncoder_encode (js ''Hi there''))) \<and>
   le32 (entry_bytes \<lparr>name = js ''hello.txt'', content = js ''Hi there''\<rparr>) 14
     \<noteq> unat (spec_crc32 (TextEncoder_encode (js ''Hi there''))) \<and>
   le32 (entry_bytes \<lparr>name = js ''hello.txt'', content = js ''Hi there''\<rparr>) 22
     \<noteq> length (TextEncoder_encode (js ''Hi there'')) \<and>
   le32 (entry_bytes \<lparr>name = js ''hello.txt'', content = js ''Hi there''\<rparr>) 26
     \<noteq> length (TextEncoder_encode (js ''Hi there''))"
proof -
  have z: "le32 (entry_bytes f) 14 = 0 \<and> le32 (entry_bytes f) 18 = 0 \<and>
      le32 (entry_bytes f) 22 = 0 \<and> le32 (entry_bytes f) 26 = 0" for f
    by (simp add: entry_bytes_def local_header_fields)
  have c: "unat (spec_crc32 (TextEncoder_encode (js ''Hi there''))) = 450172090"
    by (simp add: encode_hi_there crc32_hi_there)
  have l: "length (TextEncoder_encode (js ''Hi there'')) = 8"
    by (simp add: encode_hi_there)
  show ?thesis using hello_ascii by (simp add: zipArray_eq z c l)
qed

subsection \<open>C4: offsets in the central directory\<close>

text \<open>
  C4 asks that each central directory record carries the offset at which its local
  header begins. For the two entries \<^verbatim>\<open>a\<close> (content \<^verbatim>\<open>x\<close>) and \<^verbatim>\<open>b\<close> (content \<^verbatim>\<open>y\<close>), in
  a page that binds \<^verbatim>\<open>offset\<close> (otherwise no archive comes out at all), the second local
  header begins at byte 34 and the second central directory record at byte 117; the offset
  field of that record (bytes 163 and 164) is 0, not 34. The record is written from
  \<^verbatim>\<open>file.currentOffset\<close>, a property the objects of \<^verbatim>\<open>centralDirectory\<close> do not have.
\<close>

theorem second_central_offset_is_zero:
  "zip (Some (Number 0)) b
     [\<lparr>name = js ''a'', content = js ''x''\<rparr>, \<lparr>name = js ''b'', content = js ''y''\<rparr>]
     zipFileName =
   (Inr \<lparr>blob_bytes = archive_bytes (Number 0)
           [\<lparr>name = js ''a'', content = js ''x''\<rparr>, \<lparr>name = js ''b'', content = js ''y''\<rparr>],
         blob_type = ''application/zip''\<rparr>,
    download_link b
      \<lparr>blob_bytes = archive_bytes (Number 0)
         [\<lparr>name = js ''a'', content = js ''x''\<rparr>, \<lparr>name = js ''b'', content = js ''y''\<rparr>],
       blob_type = ''application/zip''\<rparr> zipFileName) \<and>
   take 4 (drop 34 (archive_bytes (Number 0)
     [\<lparr>name = js ''a'', content = js ''x''\<rparr>, \<lparr>name = js ''b'', content = js ''y''\<rparr>]))
     = [80, 75, 3, 4] \<and>
   take 4 (drop 117 (archive_bytes (Number 0)
     [\<lparr>name = js ''a'', content = js ''x''\<rparr>, \<lparr>name = js ''b'', content = js ''y''\<rparr>]))
     = [80, 75, 1, 2] \<and>
   le16 (archive_bytes (Number 0)
     [\<lparr>name = js ''a'', content = js ''x''\<rparr>, \<lparr>name = js ''b'', content = js ''y''\<rparr>]) 163
     = 0"
proof -
  have "zip (Some (Number 0)) b
     [\<lparr>name = js ''a'', content = js ''x''\<rparr>, \<lparr>name = js ''b'', content = js ''y''\<rparr>]
     zipFileName =
   (Inr \<lparr>blob_bytes = archive_bytes (Number 0)
           [\<lparr>name = js ''a'', content = js ''x''\<rparr>, \<lparr>name = js ''b'', content = js ''y''\<rparr>],
         blob_type = ''application/zip''\<rparr>,
    download_link b
      \<lparr>blob_bytes = archive_bytes (Number 0)
         [\<lparr>name = js ''a'', content = js ''x''\<rparr>, \<lparr>name = js ''b'', content = js ''y''\<rparr>],
       blob_type = ''application/zip''\<rparr> zipFileName)"
    using two_files_ascii by (simp add: zip_eq)
  moreover have "take 4 (drop 34 (archive_bytes (Number 0)
     [\<lparr>name = js ''a'', content = js ''x''\<rparr>, \<lparr>name = js ''b'', content = js ''y''\<rparr>]))
     = [80, 75, 3, 4]"
    unfolding two_files_archive by simp
  moreover have "take 4 (drop 117 (archive_bytes (Number 0)
     [\<lparr>name = js ''a'', content = js ''x''\<rparr>, \<lparr>name = js ''b'', content = js ''y''\<rparr>]))
     = [80, 75, 1, 2]"
    unfolding two_files_archive by simp
  moreover have "le16 (archive_bytes (Number 0)
     [\<lparr>name = js ''a'', content = js ''x''\<rparr>, \<lparr>name = js ''b'', content = js ''y''\<rparr>]) 163
     = 0"
    unfolding two_files_archive by (simp add: le16_def)
  ultimately show ?thesis by blast
qed

subsection \<open>C7: invalid entries\<close>

text \<open>
  C7, as the code has it. \<^verbatim>\<open>File.zip\<close> checks neither names nor content lengths and has
  no ArchiveEncodingError: no call fails with an error of that name, and in a page that
  binds \<^verbatim>\<open>offset\<close> a list whose names are all ASCII is encoded, whatever the lengths
  of its names and contents are, empty and over-long names included.
\<close>

theorem zip_does_not_validate:
  "(fst (zip global_offset b files zipFileName) = Inl e \<longrightarrow>
      error_name e \<noteq> ''ArchiveEncodingError'') \<and>
   (all_ascii files \<longrightarrow> \<not> isl (fst (zip (Some v) b files zipFileName)))"
  by (auto simp: zip_eq split: if_splits option.splits)

theorem zip_does_not_validate_witness:
  "fst (zip no_global \<lparr>object_urls = [], downloads = []\<rparr> [\<lparr>name = [], content = []\<rparr>] [])
     = Inl ReferenceError \<and>
   all_ascii [\<lparr>name = [], content = []\<rparr>] \<and>
   \<not> isl (fst (zip (Some (Number 0)) \<lparr>object_urls = [], downloads = []\<rparr>
            [\<lparr>name = [], content = []\<rparr>] []))"
proof -
  have a: "all_ascii [\<lparr>name = [], content = []\<rparr>]"
    by (simp add: all_ascii_def is_ascii_def)
  have r: "fst (zip no_global \<lparr>object_urls = [], downloads = []\<rparr>
      [\<lparr>name = [], content = []\<rparr>] []) = Inl ReferenceError"
    using a by (simp add: zip_eq no_global_def)
  from zip_does_not_validate [of no_global "\<lparr>object_urls = [], downloads = []\<rparr>"
      "[\<lparr>name = [], content = []\<rparr>]" "[]" ReferenceError "Number 0"] a r
  show ?thesis by simp
qed

text \<open>
  C7 as stated fails for an entry with the empty name: without a global \<^verbatim>\<open>offset\<close> the
  error is the ReferenceError of every call, and with one the call returns a Blob. A name
  of 65536 bytes is accepted as well.
\<close>

theorem zip_accepts_invalid_entries_counterexample:
  "fst (zip no_global \<lparr>object_urls = [], downloads = []\<rparr> [\<lparr>name = [], content = []\<rparr>] [])
     = Inl ReferenceError \<and>
   error_name ReferenceError \<noteq> ''ArchiveEncodingError'' \<and>
   \<not> isl (fst (zip (Some (Number 0)) \<lparr>object_urls = [], downloads = []\<rparr>
            [\<lparr>name = [], content = []\<rparr>] [])) \<and>
   65535 < length (TextEncoder_encode (replicate 65536 0x61)) \<and>
   \<not> isl (fst (zip (Some (Number 0)) \<lparr>object_urls = [], downloads = []\<rparr>
            [\<lparr>name = replicate 65536 0x61, content = []\<rparr>] []))"
proof -
  have a: "all_ascii [\<lparr>name = [], content = []\<rparr>]"
    by (simp add: all_ascii_def is_ascii_def)
  have l: "is_ascii (replicate 65536 0x61)"
    by (simp add: is_ascii_def list_all_iff)
  then have b: "all_ascii [\<lparr>name = replicate 65536 0x61, content = []\<rparr>]"
    by (simp add: all_ascii_def)
  have n: "length (TextEncoder_encode (replicate 65536 0x61)) = 65536"
    using l TextEncoder_encode_length_eq [of "replicate 65536 0x61"] by simp
  show ?thesis using a b n by (simp add: zip_eq no_global_def)
qed

subsection \<open>C9: effects\<close>

text \<open>
  C9, as the code has it. \<^verbatim>\<open>File.zip\<close> acts on the browser exactly when it returns, which
  is when every name is ASCII and the page binds \<^verbatim>\<open>offset\<close>: it then registers an object
  URL for the Blob it returns, whose bytes are the archive built from the files, and starts
  a download of that Blob under \<^verbatim>\<open>zipFileName\<close>, and changes nothing else. A call that
  throws leaves the browser state as it was.
\<close>

theorem zip_effects:
  "snd (zip global_offset b files zipFileName) =
     (case global_offset of
        None \<Rightarrow> b
      | Some v \<Rightarrow>
          if all_ascii files
          then b\<lparr>object_urls := object_urls b
                   @ [\<lparr>blob_bytes = archive_bytes v files, blob_type = ''application/zip''\<rparr>],
                 downloads := downloads b
                   @ [(zipFileName,
                       \<lparr>blob_bytes = archive_bytes v files, blob_type = ''application/zip''\<rparr>)]\<rparr>
          else b) \<and>
   ((\<exists>returned. fst (zip global_offset b files zipFileName) = Inr returned) \<longleftrightarrow>
      global_offset \<noteq> None \<and> all_ascii files) \<and>
   (isl (fst (zip global_offset b files zipFileName)) \<longrightarrow>
      snd (zip global_offset b files zipFileName) = b) \<and>
   (fst (zip global_offset b files zipFileName) = Inr zipBlob \<longrightarrow>
      (\<exists>v. global_offset = Some v \<and> all_ascii files \<and>
           blob_bytes zipBlob = archive_bytes v files) \<and>
      snd (zip global_offset b files zipFileName) =
        b\<lparr>object_urls := object_urls b @ [zipBlob],
          downloads := downloads b @ [(zipFileName, zipBlob)]\<rparr>)"
  by (auto simp: zip_eq download_link_def split: if_splits option.splits)

theorem zip_effects_witness:
  "isl (fst (zip None \<lparr>object_urls = [], downloads = []\<rparr> [] (js ''a.zip''))) \<and>
   snd (zip None \<lparr>object_urls = [], downloads = []\<rparr> [] (js ''a.zip'')) =
     \<lparr>object_urls = [], downloads = []\<rparr> \<and>
   fst (zip (Some Undefined) \<lparr>object_urls = [], downloads = []\<rparr> [] (js ''a.zip'')) =
     Inr \<lparr>blob_bytes = [80, 75, 5, 6, 0, 0, 0, 0, 0, 0, 0, 0, 0, 0, 0, 0, 0, 0, 0, 0, 0, 0],
          blob_type = ''application/zip''\<rparr> \<and>
   snd (zip (Some Undefined) \<lparr>object_urls = [], downloads = []\<rparr> [] (js ''a.zip'')) =
     \<lparr>object_urls =
        [\<lparr>blob_bytes = [80, 75, 5, 6, 0, 0, 0, 0, 0, 0, 0, 0, 0, 0, 0, 0, 0, 0, 0, 0, 0, 0],
          blob_type = ''application/zip''\<rparr>],
      downloads =
        [(js ''a.zip'',
          \<lparr>blob_bytes = [80, 75, 5, 6, 0, 0, 0, 0, 0, 0, 0, 0, 0, 0, 0, 0, 0, 0, 0, 0, 0, 0],
           blob_type = ''application/zip''\<rparr>)]\<rparr>"
proof -
  let ?b = "\<lparr>object_urls = [], downloads = []\<rparr>"
  let ?blob = "\<lparr>blob_bytes = [80, 75, 5, 6, 0, 0, 0, 0, 0, 0, 0, 0, 0, 0, 0, 0, 0, 0, 0, 0, 0, 0],
      blob_type = ''application/zip''\<rparr>"
  have t: "isl (fst (zip None ?b [] (js ''a.zip'')))"
    by (simp add: zip_eq all_ascii_def)
  have r: "fst (zip (Some Undefined) ?b [] (js ''a.zip'')) = Inr ?blob"
    by (simp add: zip_empty_with_global_offset)
  from zip_effects [of None ?b "[]" "js ''a.zip''" ?blob] t
  have s1: "snd (zip None ?b [] (js ''a.zip'')) = ?b" by blast
  from zip_effects [of "Some Undefined" ?b "[]" "js ''a.zip''" ?blob] r
  have s2: "snd (zip (Some Undefined) ?b [] (js ''a.zip'')) =
      ?b\<lparr>object_urls := object_urls ?b @ [?blob],
         downloads := downloads ?b @ [(js ''a.zip'', ?blob)]\<rparr>" by blast
  from t r s1 s2 show ?thesis by simp
qed

text \<open>
  C9 as stated fails for the empty list: in a page without a global \<^verbatim>\<open>offset\<close> the call
  returns no bytes, and in a page with one it leaves an object URL and a download behind.
\<close>

theorem zip_download_counterexample:
  "zip no_global \<lparr>object_urls = [], downloads = []\<rparr> [] (js ''a.zip'') =
     (Inl ReferenceError, \<lparr>object_urls = [], downloads = []\<rparr>) \<and>
   zip (Some Undefined) \<lparr>object_urls = [], downloads = []\<rparr> [] (js ''a.zip'') =
     (Inr \<lparr>blob_bytes = [80, 75, 5, 6, 0, 0, 0, 0, 0, 0, 0, 0, 0, 0, 0, 0, 0, 0, 0, 0, 0, 0],
           blob_type = ''application/zip''\<rparr>,
      \<lparr>object_urls =
         [\<lparr>blob_bytes = [80, 75, 5, 6, 0, 0, 0, 0, 0, 0, 0, 0, 0, 0, 0, 0, 0, 0, 0, 0, 0, 0],
           blob_type = ''application/zip''\<rparr>],
       downloads =
         [(js ''a.zip'',
           \<lparr>blob_bytes = [80, 75, 5, 6, 0, 0, 0, 0, 0, 0, 0, 0, 0, 0, 0, 0, 0, 0, 0, 0, 0, 0],
            blob_type = ''application/zip''\<rparr>)]\<rparr>)"
proof -
  have "zip no_global \<lparr>object_urls = [], downloads = []\<rparr> [] (js ''a.zip'') =
      (Inl ReferenceError, \<lparr>object_urls = [], downloads = []\<rparr>)"
    by (simp add: zip_eq no_global_def all_ascii_def)
  then show ?thesis
    by (simp add: zip_empty_with_global_offset download_link_def)
qed

subsection \<open>C5: checksum failures\<close>

text \<open>
  C5, as the code has it. \<^verbatim>\<open>File.unzip\<close> compares no CRC-32 and has no
  ArchiveIntegrityError. Its Promise is rejected in three cases and in no other: the
  reader fails (message \<^verbatim>\<open>Error reading zip file.\<close>); \<^verbatim>\<open>loadAsync\<close> of JSZip rejects, for
  whatever reason (message \<^verbatim>\<open>Failed to unzip the file: \<close> followed by the message of
  JSZip); or JSZip has loaded the archive and \<^verbatim>\<open>file(name)\<close> is \<^verbatim>\<open>null\<close> for one of its
  entries (the same prefix, followed by the message of the TypeError). Every rejection is
  a plain \<^verbatim>\<open>Error\<close>.
\<close>

theorem unzip_rejects_with_plain_error:
  "(unzip env zipBlob = Rejected e \<longleftrightarrow>
      (readAsArrayBuffer env zipBlob = None \<and> e = Error ''Error reading zip file.'') \<or>
      (\<exists>arrayBuffer jz. readAsArrayBuffer env zipBlob = Some arrayBuffer \<and>
         JSZip env = Some jz \<and>
         ((\<exists>message. loadAsync jz arrayBuffer = Inl message \<and>
             e = Error (''Failed to unzip the file: '' @ message)) \<or>
          (\<exists>zipFiles. loadAsync jz arrayBuffer = Inr zipFiles \<and>
             (\<exists>zipEntry \<in> set zipFiles. zo_file zipEntry = None) \<and>
             e = Error (''Failed to unzip the file: '' @ null_message env))))) \<and>
   (unzip env zipBlob = Rejected e \<longrightarrow>
      error_name e = ''Error'' \<and> error_name e \<noteq> ''ArchiveIntegrityError'')"
proof -
  have r: "unzip env zipBlob = Rejected e \<longleftrightarrow>
      (readAsArrayBuffer env zipBlob = None \<and> e = Error ''Error reading zip file.'') \<or>
      (\<exists>arrayBuffer jz. readAsArrayBuffer env zipBlob = Some arrayBuffer \<and>
         JSZip env = Some jz \<and>
         ((\<exists>message. loadAsync jz arrayBuffer = Inl message \<and>
             e = Error (''Failed to unzip the file: '' @ message)) \<or>
          (\<exists>zipFiles. loadAsync jz arrayBuffer = Inr zipFiles \<and>
             (\<exists>zipEntry \<in> set zipFiles. zo_file zipEntry = None) \<and>
             e = Error (''Failed to unzip the file: '' @ null_message env))))"
  proof (cases "readAsArrayBuffer env zipBlob")
    case None
    then show ?thesis by (auto simp: unzip_def)
  next
    case (Some arrayBuffer)
    note read = this
    show ?thesis
    proof (cases "JSZip env")
      case None
      with read show ?thesis by (simp add: unzip_def)
    next
      case (Some jz)
      note lib = this
      show ?thesis
      proof (cases "loadAsync jz arrayBuffer")
        case (Inl message)
        with read lib show ?thesis by (auto simp: unzip_def)
      next
        case (Inr zipFiles)
        show ?thesis
        proof (cases "forEach_entry (null_message env) zipFiles")
          case (Inl m)
          then have "(\<exists>zipEntry \<in> set zipFiles. zo_file zipEntry = None) \<and> m = null_message env"
            by (simp add: forEach_entry_throws)
          with read lib Inr Inl show ?thesis by (auto simp: unzip_def)
        next
          case (Inr pushed)
          then have "\<not> (\<exists>zipEntry \<in> set zipFiles. zo_file zipEntry = None)"
            using forEach_entry_throws [of "null_message env" zipFiles "null_message env"]
            by simp
          with read lib \<open>loadAsync jz arrayBuffer = Inr zipFiles\<close> Inr show ?thesis
            by (auto simp: unzip_def)
        qed
      qed
    qed
  qed
  have n: "unzip env zipBlob = Rejected e \<longrightarrow>
      error_name e = ''Error'' \<and> error_name e \<noteq> ''ArchiveIntegrityError''"
    unfolding r by auto
  from r n show ?thesis by blast
qed

theorem unzip_rejects_with_plain_error_witness:
  "unzip no_archive_page [1, 2, 3] =
     Rejected (Error (''Failed to unzip the file: ''
        @ ''Can't find end of central directory : is this a zip file ?'')) \<and>
   unzip folder_page [1, 2, 3] =
     Rejected (Error (''Failed to unzip the file: ''
        @ ''Cannot read properties of null (reading 'async')'')) \<and>
   error_name (Error (''Failed to unzip the file: ''
        @ ''Can't find end of central directory : is this a zip file ?'')) = ''Error''"
proof -
  let ?e = "Error (''Failed to unzip the file: ''
      @ ''Can't find end of central directory : is this a zip file ?'')"
  have u: "unzip no_archive_page [1, 2, 3] = Rejected ?e"
    by (simp add: unzip_def no_archive_page_def)
  have f: "unzip folder_page [1, 2, 3] = Rejected (Error (''Failed to unzip the file: ''
      @ ''Cannot read properties of null (reading 'async')''))"
    by (simp add: unzip_def folder_page_def)
  from unzip_rejects_with_plain_error [of no_archive_page "[1, 2, 3]" ?e] u
  have "error_name ?e = ''Error''" by blast
  with u f show ?thesis by blast
qed

text \<open>
  C5 as stated fails for \<open>flipped_archive\<close>, whose content does not match the declared
  CRC-32: JSZip, called as the code calls it, loads the archive, and the Promise is
  fulfilled with the changed content instead of being rejected.
\<close>

theorem unzip_crc_mismatch_counterexample:
  "spec_declared_crc flipped_archive \<noteq> unat (spec_crc32 (spec_content flipped_archive)) \<and>
   unzip lenient_page flipped_archive = Fulfilled {#\<lparr>name = js ''a'', content = js ''y''\<rparr>#}"
proof -
  have "spec_declared_crc flipped_archive \<noteq> unat (spec_crc32 (spec_content flipped_archive))"
    by (simp add: flipped_archive_fields crc32_y)
  moreover have "unzip lenient_page flipped_archive =
      Fulfilled {#\<lparr>name = js ''a'', content = js ''y''\<rparr>#}"
    by (simp add: unzip_def lenient_page_def)
  ultimately show ?thesis by simp
qed

subsection \<open>C6: no partial list\<close>

text \<open>
  C6 asks that a decode that fails hands no entries to the caller, never a partial list.
  In a page whose JSZip lists the entries \<^verbatim>\<open>a\<close> and \<^verbatim>\<open>b\<close> and fails to read the text
  of \<^verbatim>\<open>b\<close>, \<^verbatim>\<open>File.unzip\<close> does not reject: the Promise is fulfilled with the array
  \<^verbatim>\<open>extractedFiles\<close>, which ends up holding the entry \<^verbatim>\<open>a\<close> alone. The failure of the read
  reaches no handler, because \<^verbatim>\<open>Promise.all\<close> watches the empty result array and not the
  reads.
\<close>

theorem unzip_delivers_partial_list:
  "unzip damaged_entry_page zipBlob = Fulfilled {#\<lparr>name = js ''a'', content = js ''x''\<rparr>#}"
  by (simp add: unzip_def damaged_entry_page_def)

end
